theory Spec2Isabelle
  imports Main "HOL-Library.Sublist" "HOL-Library.Code_Target_Nat"
begin

section \<open>Data model\<close>

text \<open>
  A Python \<^verbatim>\<open>str\<close> is the list of its code points, so that every string the script can
  receive has a value here. The script handles the values that \<^verbatim>\<open>response.json()\<close>
  produces. A Python dict is an association list in insertion order (each key occurs once
  in a dict that comes from a JSON document or from a dict display with distinct keys);
  numbers are the integers.
\<close>

type_synonym pystr = "nat list"

text \<open>A string literal of the source.\<close>

definition str :: "string \<Rightarrow> pystr" where
  "str s = map of_char s"

datatype json =
    JNull
  | JBool bool
  | JInt int
  | JStr pystr
  | JArr "json list"
  | JObj "(pystr \<times> json) list"

text \<open>
  The exceptions that leave a task: those that the extractors raise on a record of the
  wrong shape, and the one that the writer raises on a string that the file's encoding
  rejects.
\<close>

datatype error = KeyError | TypeError | AttributeError | UnicodeEncodeError

definition bind_err :: "error + 'a \<Rightarrow> ('a \<Rightarrow> error + 'b) \<Rightarrow> error + 'b" where
  "bind_err m f = (case m of Inl e \<Rightarrow> Inl e | Inr x \<Rightarrow> f x)"

text \<open>\<^verbatim>\<open>x[k]\<close> with a string key \<open>k\<close>.\<close>

fun py_getitem :: "json \<Rightarrow> pystr \<Rightarrow> error + json" where
  "py_getitem (JObj kvs) k = (case map_of kvs k of None \<Rightarrow> Inl KeyError | Some v \<Rightarrow> Inr v)"
| "py_getitem _ k = Inl TypeError"

text \<open>\<^verbatim>\<open>k in x\<close> with a string \<open>k\<close>: a key of a dict, an element of a list, a substring of a string.\<close>

fun py_contains :: "pystr \<Rightarrow> json \<Rightarrow> error + bool" where
  "py_contains k (JObj kvs) = Inr (k \<in> set (map fst kvs))"
| "py_contains k (JArr xs) = Inr (JStr k \<in> set xs)"
| "py_contains k (JStr s) = Inr (sublist k s)"
| "py_contains k _ = Inl TypeError"

text \<open>\<^verbatim>\<open>x.get(k, d)\<close>: only a dict has the method.\<close>

fun py_get :: "json \<Rightarrow> pystr \<Rightarrow> json \<Rightarrow> error + json" where
  "py_get (JObj kvs) k d = (case map_of kvs k of None \<Rightarrow> Inr d | Some v \<Rightarrow> Inr v)"
| "py_get _ k d = Inl AttributeError"

text \<open>\<^verbatim>\<open>len(x)\<close>.\<close>

fun py_len :: "json \<Rightarrow> error + nat" where
  "py_len (JArr xs) = Inr (length xs)"
| "py_len (JObj kvs) = Inr (length kvs)"
| "py_len (JStr s) = Inr (length s)"
| "py_len _ = Inl TypeError"

text \<open>\<^verbatim>\<open>for y in x\<close>: the elements of a list, the keys of a dict, the characters of a string.\<close>

fun py_iter :: "json \<Rightarrow> error + json list" where
  "py_iter (JArr xs) = Inr xs"
| "py_iter (JObj kvs) = Inr (map (\<lambda>kv. JStr (fst kv)) kvs)"
| "py_iter (JStr s) = Inr (map (\<lambda>c. JStr [c]) s)"
| "py_iter _ = Inl TypeError"

subsection \<open>The text of a request exception\<close>

text \<open>
  The message of a request exception is only lower-cased and searched for two ASCII
  phrases. It is a list of HOL's characters, read as ASCII, and only \<open>A\<close> to \<open>Z\<close> have a
  lower-case form.
\<close>

definition is_upper :: "char \<Rightarrow> bool" where
  "is_upper c = (65 \<le> (of_char c :: nat) \<and> (of_char c :: nat) \<le> 90)"

definition lower_char :: "char \<Rightarrow> char" where
  "lower_char c = (if is_upper c then char_of ((of_char c :: nat) + 32) else c)"

text \<open>\<^verbatim>\<open>str.lower()\<close>.\<close>

definition lower :: "string \<Rightarrow> string" where
  "lower s = map lower_char s"

section \<open>The paginated fetcher\<close>

text \<open>
  One call of \<^verbatim>\<open>requests.get\<close> followed by \<^verbatim>\<open>raise_for_status\<close> and \<^verbatim>\<open>json\<close> either
  yields the page's records and whether \<^verbatim>\<open>response.links\<close> has a \<^verbatim>\<open>next\<close> entry, or raises
  a \<^verbatim>\<open>RequestException\<close> with a message. The server is a function of the number of requests
  already sent and of the page asked for. The log lists the requests and the sleeps of a
  call; printing is left out.
\<close>

datatype response = Ok "json list" bool | RequestException string

datatype event = Request nat | Sleep nat

type_synonym server = "nat \<Rightarrow> nat \<Rightarrow> response"

record loop_state =
  all_items :: "json list"
  page :: nat
  sent :: nat
  log :: "event list"

text \<open>How the \<^verbatim>\<open>while True\<close> loop is left: by \<^verbatim>\<open>break\<close> or by \<^verbatim>\<open>return None\<close>.\<close>

datatype loop_exit = Break loop_state | Return_None loop_state

text \<open>\<^verbatim>\<open>max_items is not None and len(all_items) >= max_items\<close>\<close>

definition limit_reached :: "int option \<Rightarrow> json list \<Rightarrow> bool" where
  "limit_reached max_items items =
     (case max_items of None \<Rightarrow> False | Some n \<Rightarrow> int (length items) \<ge> n)"

text \<open>\<^verbatim>\<open>not GITHUB_TOKEN\<close>: the variable is unset or empty.\<close>

definition no_token :: "string option \<Rightarrow> bool" where
  "no_token token = (case token of None \<Rightarrow> True | Some t \<Rightarrow> t = [])"

definition requested :: "loop_state \<Rightarrow> loop_state" where
  "requested st = st\<lparr>sent := sent st + 1, log := log st @ [Request (page st)]\<rparr>"

definition slept :: "nat \<Rightarrow> loop_state \<Rightarrow> loop_state" where
  "slept secs st = st\<lparr>log := log st @ [Sleep secs]\<rparr>"

partial_function (option) fetch_loop ::
  "string option \<Rightarrow> server \<Rightarrow> int option \<Rightarrow> loop_state \<Rightarrow> loop_exit option" where
  "fetch_loop token srv max_items st =
     (if limit_reached max_items (all_items st) then Some (Break st)
      else if no_token token then Some (Return_None st)
      else (case srv (sent st) (page st) of
          Ok data has_next \<Rightarrow>
            if data = [] then Some (Break (requested st))
            else if \<not> has_next
              then Some (Break ((requested st)\<lparr>all_items := all_items st @ data\<rparr>))
            else fetch_loop token srv max_items
                   (slept 1 ((requested st)\<lparr>all_items := all_items st @ data,
                                             page := page st + 1\<rparr>))
        | RequestException e \<Rightarrow>
            if sublist ''bad credentials'' (lower e) then Some (Break (requested st))
            else if sublist ''rate limit exceeded'' (lower e)
              then fetch_loop token srv max_items (slept 3601 (requested st))
            else Some (Break (requested st))))"

text \<open>\<^verbatim>\<open>xs[:n]\<close>; a negative \<open>n\<close> counts from the end.\<close>

definition slice_to :: "'a list \<Rightarrow> int \<Rightarrow> 'a list" where
  "slice_to xs n = (if 0 \<le> n then take (nat n) xs else take (length xs - nat (- n)) xs)"

text \<open>What the call returns: \<^verbatim>\<open>None\<close> or a list.\<close>

datatype fetched = PyNone | PyList "json list"

definition initial_state :: loop_state where
  "initial_state = \<lparr>all_items = [], page = 1, sent = 0, log = []\<rparr>"

declare fetch_loop.simps [code]

definition after_loop :: "int option \<Rightarrow> loop_exit \<Rightarrow> fetched \<times> event list" where
  "after_loop max_items ex =
     (case ex of
        Return_None st \<Rightarrow> (PyNone, log st)
      | Break st \<Rightarrow>
          (case max_items of
             Some n \<Rightarrow> (PyList (slice_to (all_items st) n), log st)
           | None \<Rightarrow> (PyList (all_items st), log st)))"

text \<open>The result is \<open>None\<close> when the loop never ends.\<close>

definition fetch_paginated_data ::
  "string option \<Rightarrow> server \<Rightarrow> int option \<Rightarrow> (fetched \<times> event list) option" where
  "fetch_paginated_data token srv max_items =
     map_option (after_loop max_items) (fetch_loop token srv max_items initial_state)"

section \<open>The writer\<close>

text \<open>
  \<^verbatim>\<open>json.dumps(item, ensure_ascii=False)\<close> with the default separators: an integer is
  written in decimal; in a string the quote (code point 34), the backslash (92) and the
  control characters below 32 are escaped, and every other character is written as it is.
\<close>

definition digit_char :: "nat \<Rightarrow> nat" where
  "digit_char d = 48 + d"

fun digits :: "nat \<Rightarrow> pystr" where
  "digits n = (if n < 10 then [digit_char n] else digits (n div 10) @ [digit_char (n mod 10)])"

definition int_repr :: "int \<Rightarrow> pystr" where
  "int_repr i = (if i < 0 then str ''-'' @ digits (nat (- i)) else digits (nat i))"

definition hex_char :: "nat \<Rightarrow> nat" where
  "hex_char d = (if d < 10 then 48 + d else 87 + d)"

definition escape_char :: "nat \<Rightarrow> pystr" where
  "escape_char c =
     (if c = 34 then [92, 34]
      else if c = 92 then [92, 92]
      else if c = 10 then 92 # str ''n''
      else if c = 13 then 92 # str ''r''
      else if c = 9 then 92 # str ''t''
      else if c = 8 then 92 # str ''b''
      else if c = 12 then 92 # str ''f''
      else if c < 32 then 92 # str ''u00'' @ [hex_char (c div 16), hex_char (c mod 16)]
      else [c])"

definition encode_string :: "pystr \<Rightarrow> pystr" where
  "encode_string s = 34 # concat (map escape_char s) @ [34]"

fun dumps :: "json \<Rightarrow> pystr"
  and dumps_items :: "json list \<Rightarrow> pystr"
  and dumps_members :: "(pystr \<times> json) list \<Rightarrow> pystr" where
  "dumps JNull = str ''null''"
| "dumps (JBool b) = (if b then str ''true'' else str ''false'')"
| "dumps (JInt i) = int_repr i"
| "dumps (JStr s) = encode_string s"
| "dumps (JArr xs) = str ''['' @ dumps_items xs @ str '']''"
| "dumps (JObj kvs) = str ''{'' @ dumps_members kvs @ str ''}''"
| "dumps_items [] = []"
| "dumps_items [x] = dumps x"
| "dumps_items (x # y # ys) = dumps x @ str '', '' @ dumps_items (y # ys)"
| "dumps_members [] = []"
| "dumps_members [(k, v)] = encode_string k @ str '': '' @ dumps v"
| "dumps_members ((k, v) # kv # kvs) =
     encode_string k @ str '': '' @ dumps v @ str '', '' @ dumps_members (kv # kvs)"

text \<open>
  The files of the working directory, by name, each with the text it holds. The file is
  opened with \<^verbatim>\<open>encoding='utf-8'\<close>, and UTF-8 has no encoding for the surrogate code points
  \<open>U+D800\<close> to \<open>U+DFFF\<close>, which a Python string can hold: writing a string with one of them
  raises \<^verbatim>\<open>UnicodeEncodeError\<close>.
\<close>

type_synonym files = "string \<rightharpoonup> pystr"

definition surrogate :: "nat \<Rightarrow> bool" where
  "surrogate c = (55296 \<le> c \<and> c \<le> 57343)"

text \<open>
  The loop of the writer over the items, from the text \<open>f\<close> written so far: each item adds
  its line, which ends with the newline (code point 10).
\<close>

fun write_lines :: "pystr \<Rightarrow> json list \<Rightarrow> error + pystr" where
  "write_lines f [] = Inr f"
| "write_lines f (item # data_list) =
     (let line = dumps item @ [10]
      in if list_ex surrogate line then Inl UnicodeEncodeError
         else write_lines (f @ line) data_list)"

text \<open>
  \<^verbatim>\<open>open(filename, 'w', encoding='utf-8')\<close> starts from an empty file. When the writer returns,
  the file holds the lines of all items. An exception leaves the function and the task; the
  model then says nothing about the files.
\<close>

definition save_to_jsonl :: "string \<Rightarrow> json list \<Rightarrow> files \<Rightarrow> error + files" where
  "save_to_jsonl filename data_list fs =
     bind_err (write_lines [] data_list) (\<lambda>content. Inr (fs(filename \<mapsto> content)))"

section \<open>The keyword pattern\<close>

text \<open>
  The part of \<^verbatim>\<open>re\<close> that the pattern uses, compiled from a \<^verbatim>\<open>str\<close> with
  \<^verbatim>\<open>re.IGNORECASE\<close>: letters, \<^verbatim>\<open>\b\<close>, sequence, alternative and \<^verbatim>\<open>?\<close>. For such a pattern
  \<^verbatim>\<open>re\<close> works with the Unicode character tables, which belong to Python and not to this
  repository. They are parameters of the model:
  \<^item> \<open>word_char c\<close>: the character \<open>c\<close> is in the class \<^verbatim>\<open>\w\<close> (alphanumeric in the Unicode
    database, or the underscore);
  \<^item> \<open>same_letter c l\<close>: under \<^verbatim>\<open>re.IGNORECASE\<close> the character \<open>c\<close> of the subject matches
    the letter \<open>l\<close> of the pattern (so \<open>F\<close> matches \<open>f\<close>, and the long s matches \<open>s\<close>).
  A match attempt at position \<open>i\<close> of the subject yields the positions where a match can
  end, in the order in which the engine tries them.
\<close>

record re_tables =
  word_char :: "nat \<Rightarrow> bool"
  same_letter :: "nat \<Rightarrow> nat \<Rightarrow> bool"

datatype regex =
    Eps
  | Lit nat
  | WordB
  | Seq regex regex
  | Alt regex regex
  | Opt regex

definition is_word_at :: "re_tables \<Rightarrow> pystr \<Rightarrow> nat \<Rightarrow> bool" where
  "is_word_at u s i = (i < length s \<and> word_char u (s ! i))"

text \<open>\<^verbatim>\<open>\b\<close>: exactly one of the characters before and after the position is a word character.\<close>

definition boundary :: "re_tables \<Rightarrow> pystr \<Rightarrow> nat \<Rightarrow> bool" where
  "boundary u s i = ((0 < i \<and> is_word_at u s (i - 1)) \<noteq> is_word_at u s i)"

fun rmatch :: "re_tables \<Rightarrow> regex \<Rightarrow> pystr \<Rightarrow> nat \<Rightarrow> nat list" where
  "rmatch u Eps s i = [i]"
| "rmatch u (Lit l) s i = (if i < length s \<and> same_letter u (s ! i) l then [i + 1] else [])"
| "rmatch u WordB s i = (if boundary u s i then [i] else [])"
| "rmatch u (Seq a b) s i = concat (map (rmatch u b s) (rmatch u a s i))"
| "rmatch u (Alt a b) s i = rmatch u a s i @ rmatch u b s i"
| "rmatch u (Opt a) s i = rmatch u a s i @ [i]"

text \<open>\<^verbatim>\<open>pattern.search(s)\<close> is truthy when an attempt at some position succeeds.\<close>

definition re_search :: "re_tables \<Rightarrow> regex \<Rightarrow> pystr \<Rightarrow> bool" where
  "re_search u r s = (\<exists>i \<in> set [0..<Suc (length s)]. rmatch u r s i \<noteq> [])"

fun lits :: "pystr \<Rightarrow> regex" where
  "lits [] = Eps"
| "lits (c # cs) = Seq (Lit c) (lits cs)"

text \<open>\<^verbatim>\<open>re.compile(r'\b(fix(es|ed)?|bug|patch|correct(s|ed)?)\b', re.IGNORECASE)\<close>\<close>

definition fix_keywords :: regex where
  "fix_keywords =
     Seq WordB
       (Seq (Alt (Seq (lits (str ''fix'')) (Opt (Alt (lits (str ''es'')) (lits (str ''ed'')))))
              (Alt (lits (str ''bug''))
                (Alt (lits (str ''patch''))
                  (Seq (lits (str ''correct''))
                     (Opt (Alt (lits (str ''s'')) (lits (str ''ed''))))))))
            WordB)"

text \<open>\<^verbatim>\<open>pattern.search(x)\<close> raises unless \<open>x\<close> is a string.\<close>

fun py_search :: "re_tables \<Rightarrow> regex \<Rightarrow> json \<Rightarrow> error + bool" where
  "py_search u r (JStr s) = Inr (re_search u r s)"
| "py_search u r _ = Inl TypeError"

section \<open>The task extractors\<close>

text \<open>A \<^verbatim>\<open>for\<close> loop whose body may raise: the first exception ends the loop.\<close>

fun for_each :: "('a \<Rightarrow> 's \<Rightarrow> error + 's) \<Rightarrow> 'a list \<Rightarrow> 's \<Rightarrow> error + 's" where
  "for_each body [] s = Inr s"
| "for_each body (x # xs) s = bind_err (body x s) (for_each body xs)"

subsection \<open>Task 1: code search\<close>

definition code_search_body :: "json \<Rightarrow> json list \<Rightarrow> error + json list" where
  "code_search_body issue dataset =
     bind_err (py_contains (str ''pull_request'') issue) (\<lambda>is_pr.
       if \<not> is_pr then
         bind_err (py_getitem issue (str ''id'')) (\<lambda>ident.
         bind_err (py_getitem issue (str ''title'')) (\<lambda>title.
         bind_err (py_getitem issue (str ''body'')) (\<lambda>body.
         bind_err (py_getitem issue (str ''html_url'')) (\<lambda>html_url.
           Inr (dataset @
             [JObj [(str ''task'', JStr (str ''code_search'')), (str ''id'', ident),
                    (str ''query'', title), (str ''body'', body),
                    (str ''url'', html_url)]])))))
       else Inr dataset)"

text \<open>
  What an extractor does with the fetcher's result: \<open>Inl\<close> is an exception that leaves the
  function, \<open>Inr\<close> the files when it returns.
\<close>

definition code_search_from :: "fetched \<Rightarrow> files \<Rightarrow> error + files" where
  "code_search_from issues fs =
     (case issues of
        PyNone \<Rightarrow> Inr fs
      | PyList items \<Rightarrow>
          bind_err (for_each code_search_body items [])
            (\<lambda>dataset. save_to_jsonl ''task_1_code_search.jsonl'' dataset fs))"

definition task_1_code_search ::
  "string option \<Rightarrow> server \<Rightarrow> int option \<Rightarrow> files \<Rightarrow> (event list \<times> (error + files)) option" where
  "task_1_code_search token srv max_items fs =
     map_option (\<lambda>(issues, evs). (evs, code_search_from issues fs))
       (fetch_paginated_data token srv max_items)"

subsection \<open>Task 3: bug classification\<close>

text \<open>\<^verbatim>\<open>[label['name'] for label in pr['labels']]\<close>\<close>

definition label_names :: "json \<Rightarrow> error + json" where
  "label_names labels =
     bind_err (py_iter labels) (\<lambda>ls.
     bind_err (for_each (\<lambda>label names. bind_err (py_getitem label (str ''name''))
                                          (\<lambda>name. Inr (names @ [name]))) ls [])
       (\<lambda>names. Inr (JArr names)))"

definition bug_classification_body :: "json \<Rightarrow> json list \<Rightarrow> error + json list" where
  "bug_classification_body pr dataset =
     bind_err (py_getitem pr (str ''id'')) (\<lambda>ident.
     bind_err (py_getitem pr (str ''number'')) (\<lambda>number.
     bind_err (py_getitem pr (str ''title'')) (\<lambda>title.
     bind_err (bind_err (py_getitem pr (str ''labels'')) label_names) (\<lambda>labels.
     bind_err (py_getitem pr (str ''diff_url'')) (\<lambda>diff_url.
     bind_err (py_getitem pr (str ''state'')) (\<lambda>state.
       Inr (dataset @
         [JObj [(str ''task'', JStr (str ''bug_classification'')), (str ''id'', ident),
                (str ''pr_number'', number), (str ''title'', title),
                (str ''labels'', labels), (str ''diff_url'', diff_url),
                (str ''state'', state)]])))))))"

definition bug_classification_from :: "fetched \<Rightarrow> files \<Rightarrow> error + files" where
  "bug_classification_from pull_requests fs =
     (case pull_requests of
        PyNone \<Rightarrow> Inr fs
      | PyList items \<Rightarrow>
          bind_err (for_each bug_classification_body items [])
            (\<lambda>dataset. save_to_jsonl ''task_3_bug_classification.jsonl'' dataset fs))"

definition task_3_bug_classification ::
  "string option \<Rightarrow> server \<Rightarrow> int option \<Rightarrow> files \<Rightarrow> (event list \<times> (error + files)) option" where
  "task_3_bug_classification token srv max_items fs =
     map_option (\<lambda>(pull_requests, evs). (evs, bug_classification_from pull_requests fs))
       (fetch_paginated_data token srv max_items)"

subsection \<open>Tasks 2 and 4: code repair and commit generation\<close>

text \<open>
  The loop's state is the pair \<open>(dataset_code_repair, dataset_commit_gen)\<close>; \<open>u\<close> stands for
  the character tables that \<^verbatim>\<open>fix_keywords.search\<close> works with.
\<close>

definition commits_body ::
  "re_tables \<Rightarrow> json \<Rightarrow> json list \<times> json list \<Rightarrow> error + (json list \<times> json list)" where
  "commits_body u commit acc =
     bind_err (py_getitem commit (str ''sha'')) (\<lambda>commit_sha.
     bind_err (bind_err (py_getitem commit (str ''commit''))
                 (\<lambda>c. py_getitem c (str ''message'')))
       (\<lambda>commit_message.
     bind_err (bind_err (py_getitem commit (str ''parents'')) py_len) (\<lambda>n.
       if n > 1 then Inr acc
       else
         bind_err (bind_err (bind_err (py_get commit (str ''commit'') (JObj []))
                               (\<lambda>c. py_get c (str ''author'') (JObj [])))
                     (\<lambda>a. py_get a (str ''name'') JNull)) (\<lambda>author.
           let commit_data = [(str ''sha'', commit_sha), (str ''message'', commit_message),
                              (str ''author'', author)];
               dataset_commit_gen =
                 snd acc @ [JObj ((str ''task'', JStr (str ''commit_gen'')) # commit_data)]
           in bind_err (py_search u fix_keywords commit_message) (\<lambda>found.
                if found
                then Inr (fst acc @
                            [JObj ((str ''task'', JStr (str ''code_repair'')) # commit_data)],
                          dataset_commit_gen)
                else Inr (fst acc, dataset_commit_gen))))))"

definition commits_from :: "re_tables \<Rightarrow> fetched \<Rightarrow> files \<Rightarrow> error + files" where
  "commits_from u commits fs =
     (case commits of
        PyNone \<Rightarrow> Inr fs
      | PyList items \<Rightarrow>
          bind_err (for_each (commits_body u) items ([], []))
            (\<lambda>(dataset_code_repair, dataset_commit_gen).
               bind_err (save_to_jsonl ''task_4_commit_gen.jsonl'' dataset_commit_gen fs)
                 (save_to_jsonl ''task_2_code_repair.jsonl'' dataset_code_repair)))"

definition task_2_and_4_commits ::
  "re_tables \<Rightarrow> string option \<Rightarrow> server \<Rightarrow> int option \<Rightarrow> files \<Rightarrow>
     (event list \<times> (error + files)) option" where
  "task_2_and_4_commits u token srv max_items fs =
     map_option (\<lambda>(commits, evs). (evs, commits_from u commits fs))
       (fetch_paginated_data token srv max_items)"

section \<open>Notions used in the statements\<close>

subsection \<open>Fetcher\<close>

text \<open>
  A response that takes the rate-limit branch of the handler: the text has the rate-limit
  substring, and the test for the bad-credentials substring, which comes first, has failed.
\<close>

definition rate_limited :: "response \<Rightarrow> bool" where
  "rate_limited r =
     (case r of
        Ok data has_next \<Rightarrow> False
      | RequestException e \<Rightarrow>
          sublist ''rate limit exceeded'' (lower e) \<and> \<not> sublist ''bad credentials'' (lower e))"

text \<open>The loop state after \<open>n\<close> rounds of request, failure and cooldown.\<close>

fun retried :: "nat \<Rightarrow> loop_state \<Rightarrow> loop_state" where
  "retried 0 st = st"
| "retried (Suc n) st = retried n (slept 3601 (requested st))"

subsection \<open>Example inputs\<close>

definition numbered :: "nat \<Rightarrow> nat \<Rightarrow> json list" where
  "numbered a b = map (\<lambda>i. JInt (int i)) [a..<b]"

text \<open>The source of the specification's scenarios: 100 records, then 37 and no next page.\<close>

definition two_page_source :: server where
  "two_page_source k p =
     (if p = 1 then Ok (numbered 0 100) True
      else if p = 2 then Ok (numbered 100 137) False
      else Ok [] False)"

definition after_first_page :: loop_state where
  "after_first_page =
     \<lparr>all_items = numbered 0 100, page = 2, sent = 1, log = [Request 1, Sleep 1]\<rparr>"

definition bad_credentials_server :: server where
  "bad_credentials_server k p = RequestException ''401 Client Error: Bad credentials''"

definition exhausted_server :: server where
  "exhausted_server k p = Ok [] False"

definition both_texts_server :: server where
  "both_texts_server k p = RequestException ''Bad credentials (API rate limit exceeded)''"

definition limited_twice_server :: server where
  "limited_twice_server k p =
     (if k < 2 then RequestException ''403 API Rate Limit Exceeded'' else Ok [JInt 7] False)"

definition no_files :: files where
  "no_files = Map.empty"

subsection \<open>Keywords\<close>

text \<open>
  Case-insensitive occurrence of a keyword \<open>w\<close> in \<open>s\<close> at position \<open>i\<close>: character by
  character, the text there matches the letters of \<open>w\<close> when case is ignored.
\<close>

definition keyword_at :: "re_tables \<Rightarrow> pystr \<Rightarrow> pystr \<Rightarrow> nat \<Rightarrow> bool" where
  "keyword_at u w s i =
     (i + length w \<le> length s \<and> list_all2 (same_letter u) (take (length w) (drop i s)) w)"

text \<open>A whole-word occurrence: it begins at a word boundary and ends at one.\<close>

definition whole_word_at :: "re_tables \<Rightarrow> pystr \<Rightarrow> pystr \<Rightarrow> nat \<Rightarrow> bool" where
  "whole_word_at u w s i =
     (keyword_at u w s i \<and> boundary u s i \<and> boundary u s (i + length w))"

definition matches_keyword :: "re_tables \<Rightarrow> pystr list \<Rightarrow> pystr \<Rightarrow> bool" where
  "matches_keyword u ws s =
     (\<exists>w \<in> set ws. \<exists>i \<in> set [0..<Suc (length s)]. whole_word_at u w s i)"

text \<open>The keyword set as the specification lists it.\<close>

definition spec_keywords :: "pystr list" where
  "spec_keywords = map str [''fix'', ''fixes'', ''fixed'', ''bug'', ''patch'', ''patched'',
                            ''correct'', ''corrects'', ''corrected'']"

text \<open>The words the pattern of the source accepts.\<close>

definition code_keywords :: "pystr list" where
  "code_keywords = map str [''fix'', ''fixes'', ''fixed'', ''bug'', ''patch'',
                            ''correct'', ''corrects'', ''corrected'']"

text \<open>The group between the two \<^verbatim>\<open>\b\<close> of the pattern.\<close>

definition alternatives :: regex where
  "alternatives =
     Alt (Seq (lits (str ''fix'')) (Opt (Alt (lits (str ''es'')) (lits (str ''ed'')))))
       (Alt (lits (str ''bug''))
         (Alt (lits (str ''patch''))
           (Seq (lits (str ''correct'')) (Opt (Alt (lits (str ''s'')) (lits (str ''ed'')))))))"

subsection \<open>Character tables for the examples\<close>

text \<open>
  The entries of Python's tables for the characters that the examples use: the ASCII
  characters, and \<open>U+00E9\<close> (e with acute), \<open>U+0130\<close> (capital I with dot above), \<open>U+0131\<close>
  (dotless i), \<open>U+017F\<close> (long s), \<open>U+212A\<close> (the Kelvin sign) and the ideographs \<open>U+4FEE\<close>
  and \<open>U+590D\<close>. These seven are alphanumeric; ignoring case, \<open>U+0130\<close> and \<open>U+0131\<close> match
  \<open>i\<close>, \<open>U+017F\<close> matches \<open>s\<close> and \<open>U+212A\<close> matches \<open>k\<close>. The examples contain no other
  character.
\<close>

definition ascii_word :: "nat \<Rightarrow> bool" where
  "ascii_word c = ((48 \<le> c \<and> c \<le> 57) \<or> (65 \<le> c \<and> c \<le> 90) \<or> c = 95 \<or> (97 \<le> c \<and> c \<le> 122))"

definition sample_lower :: "nat \<Rightarrow> nat" where
  "sample_lower c =
     (if 65 \<le> c \<and> c \<le> 90 then c + 32
      else if c = 304 then 105
      else if c = 8490 then 107
      else c)"

definition sample_tables :: re_tables where
  "sample_tables =
     \<lparr>word_char = (\<lambda>c. ascii_word c \<or> c = 233 \<or> c = 304 \<or> c = 305 \<or> c = 383 \<or> c = 8490 \<or>
                        c = 20462 \<or> c = 22797),
      same_letter = (\<lambda>c l. sample_lower c = l \<or> (l = 105 \<and> c = 305) \<or> (l = 115 \<and> c = 383))\<rparr>"

subsection \<open>Reading a file back\<close>




definition is_digit :: "nat \<Rightarrow> bool" where
  "is_digit c = (48 \<le> c \<and> c \<le> 57)"

definition digit_val :: "nat \<Rightarrow> nat" where
  "digit_val c = c - 48"











text \<open>A string of the value, or a key of one of its objects, holds a surrogate.\<close>

fun has_surrogate :: "json \<Rightarrow> bool"
  and has_surrogate_items :: "json list \<Rightarrow> bool"
  and has_surrogate_members :: "(pystr \<times> json) list \<Rightarrow> bool" where
  "has_surrogate JNull = False"
| "has_surrogate (JBool b) = False"
| "has_surrogate (JInt i) = False"
| "has_surrogate (JStr s) = list_ex surrogate s"
| "has_surrogate (JArr xs) = has_surrogate_items xs"
| "has_surrogate (JObj kvs) = has_surrogate_members kvs"
| "has_surrogate_items [] = False"
| "has_surrogate_items (x # xs) = (has_surrogate x \<or> has_surrogate_items xs)"
| "has_surrogate_members [] = False"
| "has_surrogate_members ((k, v) # kvs) =
     (list_ex surrogate k \<or> has_surrogate v \<or> has_surrogate_members kvs)"



subsection \<open>Records\<close>

text \<open>An issue that the code-search loop skips: \<^verbatim>\<open>'pull_request' in issue\<close> holds.\<close>

definition carries_pr_marker :: "json \<Rightarrow> bool" where
  "carries_pr_marker issue = (py_contains (str ''pull_request'') issue = Inr True)"

definition code_search_record :: "json \<Rightarrow> json option" where
  "code_search_record issue =
     (case (py_getitem issue (str ''id''), py_getitem issue (str ''title''),
            py_getitem issue (str ''body''), py_getitem issue (str ''html_url'')) of
        (Inr ident, Inr title, Inr body, Inr url) \<Rightarrow>
          Some (JObj [(str ''task'', JStr (str ''code_search'')), (str ''id'', ident),
                      (str ''query'', title), (str ''body'', body), (str ''url'', url)])
      | _ \<Rightarrow> None)"

text \<open>\<^verbatim>\<open>commit['commit']['message']\<close>\<close>

definition commit_message :: "json \<Rightarrow> error + json" where
  "commit_message commit =
     bind_err (py_getitem commit (str ''commit'')) (\<lambda>c. py_getitem c (str ''message''))"

text \<open>\<^verbatim>\<open>commit.get('commit', {}).get('author', {}).get('name')\<close>\<close>

definition commit_author :: "json \<Rightarrow> error + json" where
  "commit_author commit =
     bind_err (bind_err (py_get commit (str ''commit'') (JObj []))
                 (\<lambda>c. py_get c (str ''author'') (JObj [])))
       (\<lambda>a. py_get a (str ''name'') JNull)"

text \<open>\<^verbatim>\<open>len(commit['parents']) > 1\<close>\<close>

definition is_merge :: "json \<Rightarrow> bool" where
  "is_merge commit =
     (case bind_err (py_getitem commit (str ''parents'')) py_len of
        Inr n \<Rightarrow> 1 < n
      | Inl e \<Rightarrow> False)"

definition commit_record :: "string \<Rightarrow> json \<Rightarrow> json option" where
  "commit_record task commit =
     (case (py_getitem commit (str ''sha''), commit_message commit, commit_author commit) of
        (Inr sha, Inr message, Inr author) \<Rightarrow>
          Some (JObj [(str ''task'', JStr (str task)), (str ''sha'', sha),
                      (str ''message'', message), (str ''author'', author)])
      | _ \<Rightarrow> None)"

text \<open>The commit's message is a string with a whole-word occurrence of one of the words.\<close>

definition keyword_commit :: "re_tables \<Rightarrow> pystr list \<Rightarrow> json \<Rightarrow> bool" where
  "keyword_commit u ws commit =
     (case commit_message commit of Inr (JStr m) \<Rightarrow> matches_keyword u ws m | _ \<Rightarrow> False)"

subsection \<open>Example records\<close>

definition plain_issue :: json where
  "plain_issue = JObj [(str ''id'', JInt 11), (str ''title'', JStr (str ''Crash in fit'')), (str ''body'', JNull),
                       (str ''html_url'', JStr (str ''https://example.org/issues/1''))]"

definition pr_issue :: json where
  "pr_issue = JObj [(str ''id'', JInt 12), (str ''title'', JStr (str ''Fix crash'')), (str ''body'', JStr (str ''patch'')),
                    (str ''html_url'', JStr (str ''https://example.org/pull/2'')),
                    (str ''pull_request'', JObj [(str ''url'', JStr (str ''https://example.org/pulls/2''))])]"

definition fix_commit :: json where
  "fix_commit =
     JObj [(str ''sha'', JStr (str ''a1'')),
           (str ''commit'', JObj [(str ''message'', JStr (str ''Fixes the scaler'')),
                              (str ''author'', JObj [(str ''name'', JStr (str ''Ada''))])]),
           (str ''parents'', JArr [JObj [(str ''sha'', JStr (str ''a0''))]])]"

definition plain_commit :: json where
  "plain_commit =
     JObj [(str ''sha'', JStr (str ''a2'')),
           (str ''commit'', JObj [(str ''message'', JStr (str ''Add prefix option'')),
                              (str ''author'', JObj [(str ''name'', JStr (str ''Bob''))])]),
           (str ''parents'', JArr [JObj [(str ''sha'', JStr (str ''a1''))]])]"

definition merge_commit :: json where
  "merge_commit =
     JObj [(str ''sha'', JStr (str ''a3'')),
           (str ''commit'', JObj [(str ''message'', JStr (str ''Merge bug fix'')),
                              (str ''author'', JObj [(str ''name'', JStr (str ''Ada''))])]),
           (str ''parents'', JArr [JObj [(str ''sha'', JStr (str ''a1''))], JObj [(str ''sha'', JStr (str ''a2''))]])]"

definition patched_commit :: json where
  "patched_commit =
     JObj [(str ''sha'', JStr (str ''a4'')),
           (str ''commit'', JObj [(str ''message'', JStr (str ''patched the build'')),
                              (str ''author'', JObj [(str ''name'', JStr (str ''Ada''))])]),
           (str ''parents'', JArr [JObj [(str ''sha'', JStr (str ''a3''))]])]"

definition no_author_commit :: json where
  "no_author_commit =
     JObj [(str ''sha'', JStr (str ''a5'')),
           (str ''commit'', JObj [(str ''message'', JStr (str ''Correct the docs''))]),
           (str ''parents'', JArr [JObj [(str ''sha'', JStr (str ''a4''))]])]"

definition no_author_merge :: json where
  "no_author_merge =
     JObj [(str ''sha'', JStr (str ''a6'')),
           (str ''commit'', JObj [(str ''message'', JStr (str ''Merge branch'')), (str ''author'', JObj [])]),
           (str ''parents'', JArr [JObj [(str ''sha'', JStr (str ''a4''))], JObj [(str ''sha'', JStr (str ''a5''))]])]"

text \<open>The author entry is \<^verbatim>\<open>null\<close>, and the commit has one parent.\<close>

definition null_author_commit :: json where
  "null_author_commit =
     JObj [(str ''sha'', JStr (str ''a7'')),
           (str ''commit'', JObj [(str ''message'', JStr (str ''Update the docs'')),
                                  (str ''author'', JNull)]),
           (str ''parents'', JArr [JObj [(str ''sha'', JStr (str ''a6''))]])]"

text \<open>
  Messages with characters outside ASCII: a word that only ends in \<open>fix\<close>, two
  spellings that \<^verbatim>\<open>re\<close> accepts for \<open>fixes\<close> and \<open>fix\<close> when it ignores case, and a word
  of two ideographs and \<open>bug\<close>.
\<close>

definition accented_prefix_message :: pystr where
  "accented_prefix_message = 233 # str ''fix the build''"

definition long_s_message :: pystr where
  "long_s_message = str ''fixe'' @ [383] @ str '' the build''"

definition dotted_i_message :: pystr where
  "dotted_i_message = str ''f'' @ [304] @ str ''x the build''"

definition ideograph_prefix_message :: pystr where
  "ideograph_prefix_message = [20462, 22797] @ str ''bug''"



section \<open>Properties of the fetcher\<close>

lemma slice_to_take: "0 \<le> n \<Longrightarrow> slice_to xs n = take (nat n) xs"
  by (simp add: slice_to_def)

lemma fetch_loop_at_limit:
  "limit_reached max_items (all_items st) \<Longrightarrow>
   fetch_loop token srv max_items st = Some (Break st)"
  by (subst fetch_loop.simps) simp

lemma log_initial_state: "log initial_state = []"
  by (simp add: initial_state_def)

text \<open>
  C1. With a limit \<open>n \<ge> 0\<close>, whatever the server answers, a call that returns a list returns
  at most \<open>n\<close> records: the list is the first \<open>n\<close> of the accumulated records (exactly \<open>n\<close>
  when that many were accumulated), and the loop, entered with \<open>n\<close> or more accumulated
  records, breaks before any request.
\<close>

theorem fetch_never_exceeds_limit:
  assumes "0 \<le> n"
    and "fetch_paginated_data token srv (Some n) = Some (PyList items, evs)"
  shows "int (length items) \<le> n \<and>
         (\<exists>st. fetch_loop token srv (Some n) initial_state = Some (Break st) \<and>
               items = take (nat n) (all_items st) \<and>
               (n \<le> int (length (all_items st)) \<longrightarrow> int (length items) = n)) \<and>
         (\<forall>st'. n \<le> int (length (all_items st')) \<longrightarrow>
               fetch_loop token srv (Some n) st' = Some (Break st'))"
proof -
  from assms(2) obtain ex where ex: "fetch_loop token srv (Some n) initial_state = Some ex"
      and al: "after_loop (Some n) ex = (PyList items, evs)"
    by (auto simp: fetch_paginated_data_def)
  from al obtain st where st: "ex = Break st" and items: "items = slice_to (all_items st) n"
    by (cases ex) (auto simp: after_loop_def)
  have t: "items = take (nat n) (all_items st)"
    using items assms(1) by (simp add: slice_to_take)
  have le: "int (length items) \<le> n" using t assms(1) by simp
  have ex2: "n \<le> int (length (all_items st)) \<longrightarrow> int (length items) = n"
    using t assms(1) by auto
  have lim: "\<forall>st'. n \<le> int (length (all_items st')) \<longrightarrow>
               fetch_loop token srv (Some n) st' = Some (Break st')"
    by (simp add: fetch_loop_at_limit limit_reached_def)
  show ?thesis using le ex st t ex2 lim by blast
qed

theorem fetch_never_exceeds_limit_witness:
  "fetch_paginated_data (Some ''t'') two_page_source (Some 50) =
     Some (PyList (numbered 0 50), [Request 1, Sleep 1]) \<and>
   int (length (numbered 0 50)) \<le> 50 \<and>
   fetch_loop (Some ''t'') two_page_source (Some 50) after_first_page =
     Some (Break after_first_page)"
proof -
  have run: "fetch_paginated_data (Some ''t'') two_page_source (Some 50) =
     Some (PyList (numbered 0 50), [Request 1, Sleep 1])"
    by code_simp
  have pos: "(0::int) \<le> 50" by simp
  have len: "(50::int) \<le> int (length (all_items after_first_page))"
    by (simp add: after_first_page_def numbered_def)
  from fetch_never_exceeds_limit [OF pos run] run len show ?thesis by blast
qed

text \<open>
  C5. When the loop, with the limit not reached and a token present, gets a page that is
  empty or a page without a next link (empty or not), it ends at once: it returns by
  \<open>break\<close> with the page's records added, and the request that fetched this page is the
  last entry of its log.
\<close>

theorem pagination_stops:
  assumes "\<not> limit_reached max_items (all_items st)" and "\<not> no_token token"
    and "srv (sent st) (page st) = Ok data has_next"
    and "data = [] \<or> \<not> has_next"
  shows "fetch_loop token srv max_items st =
           Some (Break ((requested st)\<lparr>all_items := all_items st @ data\<rparr>)) \<and>
         log ((requested st)\<lparr>all_items := all_items st @ data\<rparr>) =
           log st @ [Request (page st)]"
  using assms by (subst fetch_loop.simps) (auto simp: requested_def)

theorem pagination_stops_witness:
  "\<not> limit_reached None (all_items after_first_page) \<and> \<not> no_token (Some ''t'') \<and>
   two_page_source (sent after_first_page) (page after_first_page) =
     Ok (numbered 100 137) False \<and>
   fetch_loop (Some ''t'') two_page_source None after_first_page =
     Some (Break \<lparr>all_items = numbered 0 100 @ numbered 100 137, page = 2, sent = 2,
                  log = [Request 1, Sleep 1, Request 2]\<rparr>)"
proof -
  have a: "\<not> limit_reached None (all_items after_first_page)" by (simp add: limit_reached_def)
  have b: "\<not> no_token (Some ''t'')" by (simp add: no_token_def)
  have c: "two_page_source (sent after_first_page) (page after_first_page) =
     Ok (numbered 100 137) False"
    by (simp add: two_page_source_def after_first_page_def)
  from pagination_stops [where max_items=None and st=after_first_page and token="Some ''t''"
      and srv=two_page_source and data="numbered 100 137" and has_next=False] a b c
  show ?thesis by (simp add: after_first_page_def requested_def)
qed

subsection \<open>Rate limiting\<close>

lemma retried_fields:
  "all_items (retried n st) = all_items st \<and> page (retried n st) = page st \<and>
   sent (retried n st) = sent st + n \<and>
   log (retried n st) = log st @ concat (replicate n [Request (page st), Sleep 3601])"
proof (induction n arbitrary: st)
  case 0
  show ?case by simp
next
  case (Suc n)
  have "replicate n [Request (page st), Sleep 3601] @ [[Request (page st), Sleep 3601]]
      = [Request (page st), Sleep 3601] # replicate n [Request (page st), Sleep 3601]"
    by (metis replicate_append_same)
  then show ?case using Suc[of "slept 3601 (requested st)"]
    by (simp add: slept_def requested_def)
qed

lemma fetch_loop_retry_step:
  assumes "\<not> limit_reached m (all_items st)" and "\<not> no_token tok"
    and "rate_limited (srv (sent st) (page st))"
  shows "fetch_loop tok srv m st = fetch_loop tok srv m (slept 3601 (requested st))"
  using assms by (subst fetch_loop.simps) (auto simp: rate_limited_def split: response.splits)

lemma fetch_loop_retries:
  assumes "\<not> limit_reached m (all_items st)" and "\<not> no_token tok"
    and "\<forall>k<n. rate_limited (srv (sent st + k) (page st))"
  shows "fetch_loop tok srv m st = fetch_loop tok srv m (retried n st)"
  using assms
proof (induction n arbitrary: st)
  case 0
  show ?case by simp
next
  case (Suc n)
  let ?st = "slept 3601 (requested st)"
  have a: "all_items ?st = all_items st" "page ?st = page st" "sent ?st = Suc (sent st)"
    by (simp_all add: slept_def requested_def)
  have "rate_limited (srv (sent st) (page st))"
    using Suc.prems(3) by (metis add.right_neutral zero_less_Suc)
  then have "fetch_loop tok srv m st = fetch_loop tok srv m ?st"
    using Suc.prems by (intro fetch_loop_retry_step)
  moreover have "fetch_loop tok srv m ?st = fetch_loop tok srv m (retried n ?st)"
  proof (rule Suc.IH)
    show "\<not> limit_reached m (all_items ?st)" using Suc.prems a by simp
    show "\<not> no_token tok" by fact
    show "\<forall>k<n. rate_limited (srv (sent ?st + k) (page ?st))"
      using Suc.prems(3) a by (metis Suc_less_eq add_Suc_shift)
  qed
  ultimately show ?case by simp
qed

text \<open>Under a rate limit that never ends the loop has no result.\<close>

lemma fetch_loop_never_returns:
  assumes "fetch_loop tok srv m st = Some y"
  shows "\<not> (\<not> limit_reached m (all_items st) \<and> \<not> no_token tok \<and>
            (\<forall>k. rate_limited (srv (sent st + k) (page st))))"
  using assms
proof (induction rule: fetch_loop.raw_induct[rotated 1, consumes 1])
  case (1 fetch_loop token srv max_items st y)
  show ?case
  proof
    assume h: "\<not> limit_reached max_items (all_items st) \<and> \<not> no_token token \<and>
               (\<forall>k. rate_limited (srv (sent st + k) (page st)))"
    let ?st = "slept 3601 (requested st)"
    have a: "all_items ?st = all_items st" "page ?st = page st" "sent ?st = Suc (sent st)"
      by (simp_all add: slept_def requested_def)
    have r0: "rate_limited (srv (sent st) (page st))" using h by (metis add.right_neutral)
    have "fetch_loop token srv max_items ?st = Some y"
      using 1(2) h r0 by (auto simp: rate_limited_def split: response.splits)
    from 1(1)[OF this] have "\<not> (\<forall>k. rate_limited (srv (sent ?st + k) (page ?st)))"
      using h a by simp
    moreover have "\<forall>k. rate_limited (srv (sent ?st + k) (page ?st))"
      using h a by (metis add_Suc_shift)
    ultimately show False by blast
  qed
qed

text \<open>
  C4, as the code has it. A failure whose text has the rate-limit substring and not the
  bad-credentials substring is followed by a sleep of 3601 seconds and a request for the
  same page, with the accumulated records unchanged; this holds for any number \<open>n\<close> of such
  failures in a row, and when every request fails so the loop never returns.
\<close>

theorem rate_limit_retries_same_page:
  assumes "\<not> limit_reached max_items (all_items st)" and "\<not> no_token token"
    and "\<forall>k<n. rate_limited (srv (sent st + k) (page st))"
  shows "fetch_loop token srv max_items st = fetch_loop token srv max_items (retried n st) \<and>
         all_items (retried n st) = all_items st \<and> page (retried n st) = page st \<and>
         log (retried n st) = log st @ concat (replicate n [Request (page st), Sleep 3601]) \<and>
         ((\<forall>k. rate_limited (srv (sent st + k) (page st))) \<longrightarrow>
            fetch_loop token srv max_items st = None)"
proof -
  have "(\<forall>k. rate_limited (srv (sent st + k) (page st))) \<longrightarrow>
            fetch_loop token srv max_items st = None"
    using fetch_loop_never_returns[of token srv max_items st] assms(1,2)
    by (cases "fetch_loop token srv max_items st") auto
  then show ?thesis
    using fetch_loop_retries[where m=max_items and st=st and tok=token and n=n and srv=srv]
      assms retried_fields[of n st] by simp
qed

theorem rate_limit_retries_same_page_witness:
  "\<not> limit_reached None (all_items initial_state) \<and> \<not> no_token (Some ''t'') \<and>
   rate_limited (limited_twice_server (sent initial_state) (page initial_state)) \<and>
   rate_limited (limited_twice_server (sent initial_state + 1) (page initial_state)) \<and>
   fetch_loop (Some ''t'') limited_twice_server None initial_state =
     fetch_loop (Some ''t'') limited_twice_server None (retried 2 initial_state) \<and>
   log (retried 2 initial_state) = [Request 1, Sleep 3601, Request 1, Sleep 3601] \<and>
   fetch_paginated_data (Some ''t'') limited_twice_server None =
     Some (PyList [JInt 7], [Request 1, Sleep 3601, Request 1, Sleep 3601, Request 1])"
proof -
  have a: "\<not> limit_reached None (all_items initial_state)" by (simp add: limit_reached_def)
  have b: "\<not> no_token (Some ''t'')" by (simp add: no_token_def)
  have r: "rate_limited (RequestException ''403 API Rate Limit Exceeded'')"
    unfolding rate_limited_def by code_simp
  have c: "\<forall>k<2. rate_limited
             (limited_twice_server (sent initial_state + k) (page initial_state))"
    using r by (simp add: limited_twice_server_def initial_state_def)
  have run: "fetch_paginated_data (Some ''t'') limited_twice_server None =
     Some (PyList [JInt 7], [Request 1, Sleep 3601, Request 1, Sleep 3601, Request 1])"
    by code_simp
  have l: "concat (replicate 2 [Request (page initial_state), Sleep 3601]) =
     [Request 1, Sleep 3601, Request 1, Sleep 3601]"
    by (simp add: initial_state_def numeral_2_eq_2)
  from rate_limit_retries_same_page [where max_items=None and st=initial_state
      and token="Some ''t''" and n=2 and srv=limited_twice_server] a b c run l
  show ?thesis using r
    by (simp add: log_initial_state limited_twice_server_def initial_state_def)
qed

text \<open>
  C4 as stated fails: a failure text with the rate-limit substring that also has the
  bad-credentials substring ends the loop after one request, with no sleep and no retry.
\<close>

theorem rate_limit_with_bad_credentials_counterexample:
  "sublist ''rate limit exceeded'' (lower ''Bad credentials (API rate limit exceeded)'') \<and>
   both_texts_server 0 1 = RequestException ''Bad credentials (API rate limit exceeded)'' \<and>
   fetch_paginated_data (Some ''t'') both_texts_server None = Some (PyList [], [Request 1])"
  by code_simp

subsection \<open>Failed credentials, missing credentials\<close>

text \<open>
  C2, as the code has it. A failure whose text has the bad-credentials substring ends the
  loop at once by \<open>break\<close>: no further request is sent, the accumulated records are kept,
  and the call returns them (cut to the limit when one is set) as a list, as it does when
  the data runs out.
\<close>

theorem bad_credentials_returns_partial_list:
  assumes "\<not> limit_reached max_items (all_items st)" and "\<not> no_token token"
    and "srv (sent st) (page st) = RequestException e"
    and "sublist ''bad credentials'' (lower e)"
  shows "fetch_loop token srv max_items st = Some (Break (requested st)) \<and>
         all_items (requested st) = all_items st \<and>
         log (requested st) = log st @ [Request (page st)] \<and>
         after_loop max_items (Break (requested st)) =
           (PyList (case max_items of None \<Rightarrow> all_items st
                                    | Some n \<Rightarrow> slice_to (all_items st) n),
            log st @ [Request (page st)])"
  using assms
  by (subst fetch_loop.simps) (auto simp: requested_def after_loop_def split: option.splits)

theorem bad_credentials_returns_partial_list_witness:
  "\<not> limit_reached None (all_items initial_state) \<and> \<not> no_token (Some ''t'') \<and>
   bad_credentials_server (sent initial_state) (page initial_state) =
     RequestException ''401 Client Error: Bad credentials'' \<and>
   sublist ''bad credentials'' (lower ''401 Client Error: Bad credentials'') \<and>
   fetch_loop (Some ''t'') bad_credentials_server None initial_state =
     Some (Break (requested initial_state)) \<and>
   after_loop None (Break (requested initial_state)) = (PyList [], [Request 1])"
proof -
  have a: "\<not> limit_reached None (all_items initial_state)" by (simp add: limit_reached_def)
  have b: "\<not> no_token (Some ''t'')" by (simp add: no_token_def)
  have c: "bad_credentials_server (sent initial_state) (page initial_state) =
     RequestException ''401 Client Error: Bad credentials''"
    by (simp add: bad_credentials_server_def)
  have d: "sublist ''bad credentials'' (lower ''401 Client Error: Bad credentials'')"
    by code_simp
  from bad_credentials_returns_partial_list [where max_items=None and st=initial_state
      and token="Some ''t''" and srv=bad_credentials_server
      and e="''401 Client Error: Bad credentials''"] a b c d
  show ?thesis by (simp add: initial_state_def)
qed

text \<open>
  C2 as stated fails: with rejected credentials on the first request the call returns the
  same value as with a source that has no data, and the code-search task writes its file.
\<close>

theorem bad_credentials_counterexample:
  "sublist ''bad credentials'' (lower ''401 Client Error: Bad credentials'') \<and>
   bad_credentials_server 0 1 = RequestException ''401 Client Error: Bad credentials'' \<and>
   exhausted_server 0 1 = Ok [] False \<and>
   fetch_paginated_data (Some ''t'') bad_credentials_server None =
     Some (PyList [], [Request 1]) \<and>
   fetch_paginated_data (Some ''t'') exhausted_server None = Some (PyList [], [Request 1]) \<and>
   task_1_code_search (Some ''t'') bad_credentials_server None no_files =
     Some ([Request 1], Inr (no_files(''task_1_code_search.jsonl'' \<mapsto> [])))"
proof -
  have 1: "sublist ''bad credentials'' (lower ''401 Client Error: Bad credentials'')"
    by code_simp
  have 2: "fetch_paginated_data (Some ''t'') bad_credentials_server None =
     Some (PyList [], [Request 1])"
    by code_simp
  have 3: "fetch_paginated_data (Some ''t'') exhausted_server None =
     Some (PyList [], [Request 1])"
    by code_simp
  have 4: "task_1_code_search (Some ''t'') bad_credentials_server None no_files =
     Some ([Request 1], Inr (no_files(''task_1_code_search.jsonl'' \<mapsto> [])))"
    by (simp add: task_1_code_search_def 2 code_search_from_def bind_err_def save_to_jsonl_def)
  show ?thesis using 1 2 3 4 by (simp add: bad_credentials_server_def exhausted_server_def)
qed

text \<open>
  C8, as the code has it. Without a token the call sends no request, whatever the limit.
  When the limit is unset or positive it returns \<open>None\<close>, and each of the three extractors
  then returns with the files untouched; an extractor that receives \<open>None\<close> always does.
\<close>

theorem no_token_not_started:
  assumes "no_token token"
  shows "(\<exists>r. fetch_paginated_data token srv max_items = Some (r, [])) \<and>
         ((case max_items of None \<Rightarrow> True | Some n \<Rightarrow> 0 < n) \<longrightarrow>
            fetch_paginated_data token srv max_items = Some (PyNone, []) \<and>
            task_1_code_search token srv max_items fs = Some ([], Inr fs) \<and>
            task_3_bug_classification token srv max_items fs = Some ([], Inr fs) \<and>
            task_2_and_4_commits u token srv max_items fs = Some ([], Inr fs)) \<and>
         code_search_from PyNone fs = Inr fs \<and>
         bug_classification_from PyNone fs = Inr fs \<and>
         commits_from u PyNone fs = Inr fs"
proof -
  have loop: "fetch_loop token srv max_items initial_state =
      Some (if limit_reached max_items [] then Break initial_state
            else Return_None initial_state)"
    using assms by (subst fetch_loop.simps) (simp add: initial_state_def)
  have 1: "\<exists>r. fetch_paginated_data token srv max_items = Some (r, [])"
    unfolding fetch_paginated_data_def loop
    by (auto simp: after_loop_def log_initial_state split: option.splits)
  have 2: "(case max_items of None \<Rightarrow> True | Some n \<Rightarrow> 0 < n) \<Longrightarrow>
            fetch_paginated_data token srv max_items = Some (PyNone, [])"
    unfolding fetch_paginated_data_def loop
    by (auto simp: after_loop_def log_initial_state limit_reached_def split: option.splits)
  show ?thesis using 1 2
    by (auto simp: task_1_code_search_def task_3_bug_classification_def
        task_2_and_4_commits_def code_search_from_def bug_classification_from_def
        commits_from_def)
qed

theorem no_token_not_started_witness:
  "no_token None \<and>
   fetch_paginated_data None two_page_source (Some 50) = Some (PyNone, []) \<and>
   task_1_code_search None two_page_source (Some 50) no_files = Some ([], Inr no_files) \<and>
   task_3_bug_classification None two_page_source (Some 50) no_files =
     Some ([], Inr no_files) \<and>
   task_2_and_4_commits sample_tables None two_page_source (Some 50) no_files = Some ([], Inr no_files)"
  using no_token_not_started [of None two_page_source "Some 50" no_files]
  by (simp add: no_token_def)

text \<open>
  C8 as stated fails: without a token and with the limit 0 the call returns the empty
  list, not \<open>None\<close>, and the code-search task writes an empty file.
\<close>

theorem no_token_zero_limit_counterexample:
  "no_token None \<and>
   fetch_paginated_data None two_page_source (Some 0) = Some (PyList [], []) \<and>
   task_1_code_search None two_page_source (Some 0) no_files =
     Some ([], Inr (no_files(''task_1_code_search.jsonl'' \<mapsto> [])))"
proof -
  have 2: "fetch_paginated_data None two_page_source (Some 0) = Some (PyList [], [])"
    by code_simp
  show ?thesis
    by (simp add: no_token_def task_1_code_search_def 2 code_search_from_def bind_err_def
        save_to_jsonl_def)
qed

section \<open>Properties of the writer\<close>

lemma str_lits:
  "str ''null'' = [110, 117, 108, 108]" "str ''true'' = [116, 114, 117, 101]"
  "str ''false'' = [102, 97, 108, 115, 101]" "str ''['' = [91]" "str '']'' = [93]"
  "str ''{'' = [123]" "str ''}'' = [125]" "str '', '' = [44, 32]" "str '': '' = [58, 32]"
  "str ''-'' = [45]" "str ''n'' = [110]" "str ''r'' = [114]" "str ''t'' = [116]"
  "str ''b'' = [98]" "str ''f'' = [102]" "str ''u00'' = [117, 48, 48]"
  by (simp_all add: str_def)

declare digits.simps [simp del]

lemma digit_char_props: "d < 10 \<Longrightarrow> is_digit (digit_char d) \<and> digit_val (digit_char d) = d"
  by (simp add: is_digit_def digit_val_def digit_char_def)

lemma digits_digit: "c \<in> set (digits n) \<Longrightarrow> is_digit c"
proof (induction n arbitrary: c rule: digits.induct)
  case (1 n)
  show ?case
  proof (cases "n < 10")
    case True
    then show ?thesis using "1.prems" by (subst (asm) digits.simps) (simp add: digit_char_props)
  next
    case False
    then show ?thesis using "1.prems" "1.IH"
      by (subst (asm) digits.simps) (auto simp: digit_char_props)
  qed
qed










































lemma digit_plain: "is_digit c \<Longrightarrow> c \<noteq> 10 \<and> \<not> surrogate c"
  by (auto simp: is_digit_def surrogate_def)

lemma int_repr_plain: "10 \<notin> set (int_repr i) \<and> \<not> list_ex surrogate (int_repr i)"
  using digits_digit digit_plain
  by (auto simp: int_repr_def str_lits list_ex_iff surrogate_def)

lemma hex_char_plain: "d < 16 \<Longrightarrow> hex_char d \<noteq> 10 \<and> \<not> surrogate (hex_char d)"
  by (auto simp: hex_char_def surrogate_def)

lemma escape_char_no_newline: "10 \<notin> set (escape_char c)"
proof (cases "c < 32")
  case True
  then have "hex_char (c div 16) \<noteq> 10" "hex_char (c mod 16) \<noteq> 10"
    by (simp_all add: hex_char_plain)
  then show ?thesis by (auto simp: escape_char_def str_lits)
next
  case False
  then show ?thesis by (auto simp: escape_char_def)
qed

lemma escape_char_surrogate: "list_ex surrogate (escape_char c) = surrogate c"
proof (cases "c < 32")
  case True
  then have "\<not> surrogate (hex_char (c div 16))" "\<not> surrogate (hex_char (c mod 16))"
    by (simp_all add: hex_char_plain)
  then show ?thesis using True by (auto simp: escape_char_def str_lits surrogate_def)
next
  case False
  then show ?thesis by (auto simp: escape_char_def surrogate_def)
qed

lemma list_ex_concat: "list_ex P (concat xss) = list_ex (list_ex P) xss"
  by (induction xss) simp_all

lemma encode_string_plain:
  "10 \<notin> set (encode_string s)" "list_ex surrogate (encode_string s) = list_ex surrogate s"
proof -
  show "10 \<notin> set (encode_string s)"
    using escape_char_no_newline by (auto simp: encode_string_def)
  have "list_ex surrogate (concat (map escape_char s)) = list_ex surrogate s"
    by (induction s) (simp_all add: escape_char_surrogate)
  then show "list_ex surrogate (encode_string s) = list_ex surrogate s"
    by (simp add: encode_string_def surrogate_def)
qed


lemma of_char_less: "(of_char c :: nat) < 256"
proof -
  have "(of_char c :: nat) mod 256 = of_char c" by (rule of_char_mod_256)
  then show ?thesis by (metis mod_less_divisor zero_less_numeral)
qed

lemma of_char_plain: "\<not> surrogate (of_char c)"
  using of_char_less[of c] unfolding surrogate_def by arith

lemma str_plain: "\<not> list_ex surrogate (str w)"
  by (induction w) (simp_all add: str_def of_char_plain)

lemma dumps_surrogate:
  "list_ex surrogate (dumps v) = has_surrogate v"
  "list_ex surrogate (dumps_items xs) = has_surrogate_items xs"
  "list_ex surrogate (dumps_members kvs) = has_surrogate_members kvs"
  by (induction v and xs and kvs rule: dumps_dumps_items_dumps_members.induct)
     (simp_all add: int_repr_plain encode_string_plain str_plain)




lemma newline_plain: "\<not> surrogate 10"
  by (simp add: surrogate_def)


lemma write_lines_surrogate:
  "\<exists>item \<in> set data_list. has_surrogate item \<Longrightarrow>
   write_lines f data_list = Inl UnicodeEncodeError"
  by (induction data_list arbitrary: f) (auto simp: dumps_surrogate newline_plain Let_def)




section \<open>Properties of the keyword pattern\<close>

lemma length_str: "length (str w) = length w"
  by (simp add: str_def)

lemma str_append: "str (a @ b) = str a @ str b"
  by (simp add: str_def)

lemma keyword_at_Nil: "keyword_at u [] s i = (i \<le> length s)"
  by (simp add: keyword_at_def)

lemma keyword_at_Cons:
  "keyword_at u (l # w) s i =
     (i < length s \<and> same_letter u (s ! i) l \<and> keyword_at u w s (Suc i))"
proof (cases "i < length s")
  case True
  then have "drop i s = s ! i # drop (Suc i) s" by (simp add: Cons_nth_drop_Suc)
  then show ?thesis using True by (auto simp: keyword_at_def)
next
  case False
  then show ?thesis by (simp add: keyword_at_def)
qed

lemma keyword_at_append:
  "keyword_at u (v @ w) s i = (keyword_at u v s i \<and> keyword_at u w s (i + length v))"
proof (induction v arbitrary: i)
  case Nil
  show ?case by (auto simp: keyword_at_Nil keyword_at_def)
next
  case (Cons c v)
  show ?case by (simp add: keyword_at_Cons Cons.IH)
qed

text \<open>A run of letters matches where the text has them, case ignored, and nowhere else.\<close>

lemma rmatch_lits:
  "i \<le> length s \<Longrightarrow>
   rmatch u (lits w) s i = (if keyword_at u w s i then [i + length w] else [])"
proof (induction w arbitrary: i)
  case Nil
  then show ?case by (simp add: keyword_at_Nil)
next
  case (Cons c w)
  show ?case using Cons.IH[of "Suc i"] by (auto simp: keyword_at_Cons)
qed

lemma bex_list_choices:
  "(\<exists>e \<in> set ((if a then (if b then [x1] else []) @ (if c then [x2] else []) @ [x3] else []) @
       (if d then [x4] else []) @ (if f then [x5] else []) @
       (if g then (if h then [x6] else []) @ (if k then [x7] else []) @ [x8] else [])). Q e) =
   (a \<and> Q x3 \<or> a \<and> b \<and> Q x1 \<or> a \<and> c \<and> Q x2 \<or> d \<and> Q x4 \<or> f \<and> Q x5 \<or>
    g \<and> Q x8 \<or> g \<and> h \<and> Q x6 \<or> g \<and> k \<and> Q x7)"
  by (auto split: if_splits)

lemma ex_keywords: "(\<exists>w \<in> set code_keywords. P w) =
   (P (str ''fix'') \<or> P (str ''fixes'') \<or> P (str ''fixed'') \<or> P (str ''bug'') \<or>
    P (str ''patch'') \<or> P (str ''correct'') \<or> P (str ''corrects'') \<or> P (str ''corrected''))"
  unfolding code_keywords_def
  by (simp only: list.set list.map bex_simps Set.bex_simps insert_iff) blast

lemma keyword_at_le: "keyword_at u w s i \<Longrightarrow> i + length w \<le> length s"
  by (simp add: keyword_at_def)

text \<open>The group accepts, at a position, exactly the eight words.\<close>

lemma set_rmatch_alternatives:
  assumes "i \<le> length s"
  shows "(\<exists>e \<in> set (rmatch u alternatives s i). Q e) =
         (\<exists>w \<in> set code_keywords. keyword_at u w s i \<and> Q (i + length w))"
proof -
  have parts:
    "keyword_at u (str ''fixes'') s i =
       (keyword_at u (str ''fix'') s i \<and> keyword_at u (str ''es'') s (i + 3))"
    "keyword_at u (str ''fixed'') s i =
       (keyword_at u (str ''fix'') s i \<and> keyword_at u (str ''ed'') s (i + 3))"
    "keyword_at u (str ''corrects'') s i =
       (keyword_at u (str ''correct'') s i \<and> keyword_at u (str ''s'') s (i + 7))"
    "keyword_at u (str ''corrected'') s i =
       (keyword_at u (str ''correct'') s i \<and> keyword_at u (str ''ed'') s (i + 7))"
    using keyword_at_append[of u "str ''fix''" "str ''es''" s i]
      keyword_at_append[of u "str ''fix''" "str ''ed''" s i]
      keyword_at_append[of u "str ''correct''" "str ''s''" s i]
      keyword_at_append[of u "str ''correct''" "str ''ed''" s i]
    by (simp_all add: str_append[symmetric] length_str eval_nat_numeral)
  have l3: "keyword_at u (str ''fix'') s i \<Longrightarrow> i + 3 \<le> length s"
    using keyword_at_le[of u "str ''fix''" s i] by (simp add: length_str)
  have l7: "keyword_at u (str ''correct'') s i \<Longrightarrow> i + 7 \<le> length s"
    using keyword_at_le[of u "str ''correct''" s i] by (simp add: length_str)
  have r: "rmatch u alternatives s i =
     (if keyword_at u (str ''fix'') s i then
        (if keyword_at u (str ''es'') s (i + 3) then [i + 5] else []) @
        (if keyword_at u (str ''ed'') s (i + 3) then [i + 5] else []) @ [i + 3] else []) @
     (if keyword_at u (str ''bug'') s i then [i + 3] else []) @
     (if keyword_at u (str ''patch'') s i then [i + 5] else []) @
     (if keyword_at u (str ''correct'') s i then
        (if keyword_at u (str ''s'') s (i + 7) then [i + 8] else []) @
        (if keyword_at u (str ''ed'') s (i + 7) then [i + 9] else []) @ [i + 7] else [])"
    using assms l3 l7 unfolding alternatives_def
    by (simp add: rmatch_lits length_str eval_nat_numeral)
  have len: "length (str ''fix'') = 3" "length (str ''fixes'') = 5"
    "length (str ''fixed'') = 5" "length (str ''bug'') = 3" "length (str ''patch'') = 5"
    "length (str ''correct'') = 7" "length (str ''corrects'') = 8"
    "length (str ''corrected'') = 9"
    by (simp_all add: length_str)
  show ?thesis
    apply (simp only: r bex_list_choices ex_keywords parts len)
    apply blast
    done
qed

lemma fix_keywords_alternatives: "fix_keywords = Seq WordB (Seq alternatives WordB)"
  by (simp add: fix_keywords_def alternatives_def)

lemma concat_map_ne: "(concat (map f xs) \<noteq> []) = (\<exists>x \<in> set xs. f x \<noteq> [])"
  by (induction xs) auto

text \<open>An attempt of the whole pattern at a position succeeds exactly on a whole word.\<close>

lemma fix_keywords_at:
  assumes "i \<le> length s"
  shows "(rmatch u fix_keywords s i \<noteq> []) = (\<exists>w \<in> set code_keywords. whole_word_at u w s i)"
proof -
  have inner: "(rmatch u (Seq alternatives WordB) s i \<noteq> []) =
        (\<exists>e \<in> set (rmatch u alternatives s i). boundary u s e)"
    unfolding rmatch.simps concat_map_ne by simp
  have "rmatch u fix_keywords s i =
        concat (map (rmatch u (Seq alternatives WordB) s) (rmatch u WordB s i))"
    unfolding fix_keywords_alternatives by (rule rmatch.simps(4))
  then have "rmatch u fix_keywords s i =
        (if boundary u s i then rmatch u (Seq alternatives WordB) s i else [])"
    by (simp del: rmatch.simps add: rmatch.simps(3))
  then have "(rmatch u fix_keywords s i \<noteq> []) =
        (boundary u s i \<and> (\<exists>e \<in> set (rmatch u alternatives s i). boundary u s e))"
    using inner by simp
  also have "\<dots> = (boundary u s i \<and>
        (\<exists>w \<in> set code_keywords. keyword_at u w s i \<and> boundary u s (i + length w)))"
    by (simp only: set_rmatch_alternatives[OF assms])
  also have "\<dots> = (\<exists>w \<in> set code_keywords. whole_word_at u w s i)"
    unfolding whole_word_at_def by blast
  finally show ?thesis .
qed

lemma re_search_fix_keywords:
  "re_search u fix_keywords s = matches_keyword u code_keywords s"
proof -
  have "re_search u fix_keywords s =
        (\<exists>i \<in> set [0..<Suc (length s)]. \<exists>w \<in> set code_keywords. whole_word_at u w s i)"
    unfolding re_search_def using fix_keywords_at[of _ s u] by auto
  then show ?thesis unfolding matches_keyword_def by blast
qed

text \<open>
  Where the first and the last character of an occurrence are word characters, as the
  letters of the keywords and their case variants are, the two boundaries say that the
  characters next to the occurrence, if any, are not word characters.
\<close>

lemma whole_word_at_neighbours:
  assumes "w \<noteq> []" and "keyword_at u w s i"
    and "word_char u (s ! i)" and "word_char u (s ! (i + length w - 1))"
  shows "whole_word_at u w s i =
           (\<not> (0 < i \<and> is_word_at u s (i - 1)) \<and> \<not> is_word_at u s (i + length w))"
proof -
  have len: "i + length w \<le> length s" using assms(2) by (simp add: keyword_at_def)
  have pos: "0 < length w" using assms(1) by simp
  have "i < length s" "i + length w - 1 < length s" using len pos by arith+
  then have a: "is_word_at u s i" and b: "is_word_at u s (i + length w - 1)"
    using assms(3,4) by (simp_all add: is_word_at_def)
  have "0 < i + length w" using pos by simp
  then show ?thesis using a b assms(2) by (auto simp: whole_word_at_def boundary_def)
qed

section \<open>Properties of the extractors\<close>

lemma py_search_fix_keywords:
  "py_search u fix_keywords m = Inr found \<longleftrightarrow>
     (\<exists>s. m = JStr s \<and> found = matches_keyword u code_keywords s)"
  by (cases m) (auto simp: re_search_fix_keywords)

lemma commits_body_Inr:
  "commits_body u commit (r, g) = Inr (r', g') \<longleftrightarrow>
     (is_merge commit \<and> (\<exists>sha. py_getitem commit (str ''sha'') = Inr sha) \<and>
        (\<exists>m. commit_message commit = Inr m) \<and> r' = r \<and> g' = g) \<or>
     (\<not> is_merge commit \<and> (\<exists>n. bind_err (py_getitem commit (str ''parents'')) py_len = Inr n) \<and>
        (\<exists>rec_gen rec_repair s. commit_record ''commit_gen'' commit = Some rec_gen \<and>
           commit_record ''code_repair'' commit = Some rec_repair \<and>
           commit_message commit = Inr (JStr s) \<and>
           g' = g @ [rec_gen] \<and>
           r' = (if matches_keyword u code_keywords s then r @ [rec_repair] else r)))"
  unfolding commits_body_def is_merge_def commit_record_def commit_message_def commit_author_def
  by (auto simp: bind_err_def Let_def py_search_fix_keywords split: sum.splits)

lemma code_search_body_Inr:
  "code_search_body issue dataset = Inr ds \<longleftrightarrow>
     (carries_pr_marker issue \<and> ds = dataset) \<or>
     (py_contains (str ''pull_request'') issue = Inr False \<and>
      (\<exists>r. code_search_record issue = Some r \<and> ds = dataset @ [r]))"
  by (auto simp: code_search_body_def carries_pr_marker_def code_search_record_def bind_err_def
      split: sum.splits)

lemma for_each_Cons_Inr:
  "for_each body (x # xs) s = Inr t \<longleftrightarrow> (\<exists>m. body x s = Inr m \<and> for_each body xs m = Inr t)"
  by (auto simp: bind_err_def split: sum.splits)

lemma for_each_code_search:
  "for_each code_search_body issues dataset = Inr ds \<Longrightarrow>
   map Some ds = map Some dataset @
     map code_search_record (filter (\<lambda>issue. \<not> carries_pr_marker issue) issues)"
proof (induction issues arbitrary: dataset)
  case Nil
  then show ?case by simp
next
  case (Cons issue issues)
  from Cons.prems obtain mid where m: "code_search_body issue dataset = Inr mid"
     and r: "for_each code_search_body issues mid = Inr ds"
    unfolding for_each_Cons_Inr by blast
  from Cons.IH[OF r] m show ?case
    by (auto simp: code_search_body_Inr carries_pr_marker_def)
qed

lemma for_each_code_search_total:
  "\<forall>issue \<in> set issues. carries_pr_marker issue \<or>
      (py_contains (str ''pull_request'') issue = Inr False \<and> code_search_record issue \<noteq> None) \<Longrightarrow>
   \<exists>ds. for_each code_search_body issues dataset = Inr ds"
proof (induction issues arbitrary: dataset)
  case Nil
  then show ?case by simp
next
  case (Cons issue issues)
  then obtain mid where m: "code_search_body issue dataset = Inr mid"
    by (auto simp: code_search_body_Inr)
  with Cons show ?case unfolding for_each_Cons_Inr by simp
qed

lemma for_each_commits:
  "for_each (commits_body u) commits (r, g) = Inr (r', g') \<Longrightarrow>
   map Some g' = map Some g @
     map (commit_record ''commit_gen'') (filter (\<lambda>c. \<not> is_merge c) commits) \<and>
   map Some r' = map Some r @
     map (commit_record ''code_repair'')
       (filter (\<lambda>c. \<not> is_merge c \<and> keyword_commit u code_keywords c) commits)"
proof (induction commits arbitrary: r g)
  case Nil
  then show ?case by simp
next
  case (Cons c commits)
  from Cons.prems obtain r1 g1 where m: "commits_body u c (r, g) = Inr (r1, g1)"
     and rest: "for_each (commits_body u) commits (r1, g1) = Inr (r', g')"
    unfolding for_each_Cons_Inr by auto
  from Cons.IH[OF rest] m show ?case
    unfolding commits_body_Inr by (auto simp: keyword_commit_def)
qed

text \<open>
  C7. When the code-search loop ends without an exception, its records are, in order, those
  of the issues that carry no pull-request marker, each of the shape
  \<open>{task, id, query = title, body, url}\<close>; no record comes from an issue with the marker.
  The task then calls the writer on exactly these records. The loop ends without an
  exception when every issue either carries the marker or is a dict with the four fields.
\<close>

theorem code_search_skips_pull_requests:
  "(for_each code_search_body issues [] = Inr dataset \<longrightarrow>
      map Some dataset =
        map code_search_record (filter (\<lambda>issue. \<not> carries_pr_marker issue) issues) \<and>
      code_search_from (PyList issues) fs =
        save_to_jsonl ''task_1_code_search.jsonl'' dataset fs) \<and>
   ((\<forall>issue \<in> set issues. carries_pr_marker issue \<or>
        (py_contains (str ''pull_request'') issue = Inr False \<and> code_search_record issue \<noteq> None)) \<longrightarrow>
      (\<exists>ds. for_each code_search_body issues [] = Inr ds))"
  using for_each_code_search[of issues "[]" dataset] for_each_code_search_total[of issues "[]"]
  by (auto simp: code_search_from_def bind_err_def)

theorem code_search_skips_pull_requests_witness:
  "for_each code_search_body [plain_issue, pr_issue] [] =
     Inr [JObj [(str ''task'', JStr (str ''code_search'')), (str ''id'', JInt 11),
                (str ''query'', JStr (str ''Crash in fit'')), (str ''body'', JNull),
                (str ''url'', JStr (str ''https://example.org/issues/1''))]] \<and>
   carries_pr_marker pr_issue \<and> \<not> carries_pr_marker plain_issue \<and>
   map Some [JObj [(str ''task'', JStr (str ''code_search'')), (str ''id'', JInt 11),
                (str ''query'', JStr (str ''Crash in fit'')), (str ''body'', JNull),
                (str ''url'', JStr (str ''https://example.org/issues/1''))]] =
     map code_search_record
       (filter (\<lambda>issue. \<not> carries_pr_marker issue) [plain_issue, pr_issue])"
proof -
  have run: "for_each code_search_body [plain_issue, pr_issue] [] =
     Inr [JObj [(str ''task'', JStr (str ''code_search'')), (str ''id'', JInt 11),
                (str ''query'', JStr (str ''Crash in fit'')), (str ''body'', JNull),
                (str ''url'', JStr (str ''https://example.org/issues/1''))]]"
    by code_simp
  have m: "carries_pr_marker pr_issue" "\<not> carries_pr_marker plain_issue"
    by (simp_all add: carries_pr_marker_def pr_issue_def plain_issue_def str_def)
  from code_search_skips_pull_requests [of "[plain_issue, pr_issue]" _ no_files] run m
  show ?thesis by blast
qed

text \<open>
  C6. A commit with more than one parent leaves both data sets as they are (or the loop
  has already failed on its \<open>sha\<close> or message): when the loop ends without an exception,
  the commit-generation records are those of the commits that are not merges, the
  code-repair records those of the non-merge commits whose message matches, and the
  task then calls the writer on these, for the commit-generation file first.
\<close>

theorem merge_commits_skipped:
  "(for_each (commits_body u) commits ([], []) = Inr (repair, gen) \<longrightarrow>
      map Some gen =
        map (commit_record ''commit_gen'') (filter (\<lambda>c. \<not> is_merge c) commits) \<and>
      map Some repair =
        map (commit_record ''code_repair'')
          (filter (\<lambda>c. \<not> is_merge c \<and> keyword_commit u code_keywords c) commits) \<and>
      commits_from u (PyList commits) fs =
        bind_err (save_to_jsonl ''task_4_commit_gen.jsonl'' gen fs)
          (save_to_jsonl ''task_2_code_repair.jsonl'' repair)) \<and>
   (is_merge commit \<longrightarrow>
      commits_body u commit acc = Inr acc \<or> (\<exists>e. commits_body u commit acc = Inl e))"
proof -
  have "is_merge commit \<longrightarrow>
      commits_body u commit acc = Inr acc \<or> (\<exists>e. commits_body u commit acc = Inl e)"
  proof (cases "commits_body u commit acc")
    case (Inl e)
    then show ?thesis by simp
  next
    case (Inr acc')
    then show ?thesis using commits_body_Inr[of u commit "fst acc" "snd acc" "fst acc'" "snd acc'"]
      by (auto simp: prod_eq_iff)
  qed
  then show ?thesis
    using for_each_commits[of u commits "[]" "[]" repair gen]
    by (auto simp: commits_from_def bind_err_def)
qed

theorem merge_commits_skipped_witness:
  "is_merge merge_commit \<and> \<not> is_merge fix_commit \<and> \<not> is_merge plain_commit \<and>
   for_each (commits_body sample_tables) [fix_commit, merge_commit, plain_commit] ([], []) =
     Inr ([JObj [(str ''task'', JStr (str ''code_repair'')), (str ''sha'', JStr (str ''a1'')),
                 (str ''message'', JStr (str ''Fixes the scaler'')), (str ''author'', JStr (str ''Ada''))]],
          [JObj [(str ''task'', JStr (str ''commit_gen'')), (str ''sha'', JStr (str ''a1'')),
                 (str ''message'', JStr (str ''Fixes the scaler'')), (str ''author'', JStr (str ''Ada''))],
           JObj [(str ''task'', JStr (str ''commit_gen'')), (str ''sha'', JStr (str ''a2'')),
                 (str ''message'', JStr (str ''Add prefix option'')), (str ''author'', JStr (str ''Bob''))]]) \<and>
   commits_body sample_tables merge_commit ([], []) = Inr ([], []) \<and>
   map Some [JObj [(str ''task'', JStr (str ''commit_gen'')), (str ''sha'', JStr (str ''a1'')),
                 (str ''message'', JStr (str ''Fixes the scaler'')), (str ''author'', JStr (str ''Ada''))],
           JObj [(str ''task'', JStr (str ''commit_gen'')), (str ''sha'', JStr (str ''a2'')),
                 (str ''message'', JStr (str ''Add prefix option'')), (str ''author'', JStr (str ''Bob''))]] =
     map (commit_record ''commit_gen'')
       (filter (\<lambda>c. \<not> is_merge c) [fix_commit, merge_commit, plain_commit])"
proof -
  have m: "is_merge merge_commit" "\<not> is_merge fix_commit" "\<not> is_merge plain_commit"
    by (simp_all add: is_merge_def merge_commit_def fix_commit_def plain_commit_def bind_err_def
        str_def)
  have run: "for_each (commits_body sample_tables) [fix_commit, merge_commit, plain_commit] ([], []) =
     Inr ([JObj [(str ''task'', JStr (str ''code_repair'')), (str ''sha'', JStr (str ''a1'')),
                 (str ''message'', JStr (str ''Fixes the scaler'')), (str ''author'', JStr (str ''Ada''))]],
          [JObj [(str ''task'', JStr (str ''commit_gen'')), (str ''sha'', JStr (str ''a1'')),
                 (str ''message'', JStr (str ''Fixes the scaler'')), (str ''author'', JStr (str ''Ada''))],
           JObj [(str ''task'', JStr (str ''commit_gen'')), (str ''sha'', JStr (str ''a2'')),
                 (str ''message'', JStr (str ''Add prefix option'')), (str ''author'', JStr (str ''Bob''))]])"
    by code_simp
  have one: "commits_body sample_tables merge_commit ([], []) = Inr ([], [])"
    by code_simp
  from merge_commits_skipped [where u=sample_tables
      and commits="[fix_commit, merge_commit, plain_commit]" and fs=no_files
      and commit=merge_commit and acc="([], [])"] run m one
  show ?thesis by blast
qed

text \<open>
  C3, as the code has it. For a list of non-merge commits on which the loop ends without an
  exception, a commit has a code-repair record if and only if its message has a
  case-insensitive whole-word occurrence of one of fix, fixes, fixed, bug, patch, correct,
  corrects, corrected (this is what the pattern accepts, whatever the character tables
  say on word characters and on letters that differ in case only); every commit has a
  commit-generation record, so the code-repair records are never more.
\<close>

theorem repair_records_match_keywords:
  assumes "for_each (commits_body u) commits ([], []) = Inr (repair, gen)"
    and "\<forall>c \<in> set commits. \<not> is_merge c"
  shows "map Some repair =
           map (commit_record ''code_repair'') (filter (keyword_commit u code_keywords) commits) \<and>
         map Some gen = map (commit_record ''commit_gen'') commits \<and>
         length repair \<le> length gen \<and>
         re_search u fix_keywords m = matches_keyword u code_keywords m"
proof -
  have f1: "filter (\<lambda>c. \<not> is_merge c) commits = commits"
    using assms(2) by (simp add: filter_id_conv)
  have f2: "filter (\<lambda>c. \<not> is_merge c \<and> keyword_commit u code_keywords c) commits =
            filter (keyword_commit u code_keywords) commits"
    using assms(2) by (intro filter_cong) auto
  from for_each_commits[OF assms(1)]
  have g: "map Some gen = map (commit_record ''commit_gen'') commits"
    and r: "map Some repair =
           map (commit_record ''code_repair'') (filter (keyword_commit u code_keywords) commits)"
    by (simp_all add: f1 f2)
  have "length repair = length (filter (keyword_commit u code_keywords) commits)"
    using arg_cong[OF r, of length] by simp
  moreover have "length gen = length commits"
    using arg_cong[OF g, of length] by simp
  ultimately have "length repair \<le> length gen" by simp
  then show ?thesis using g r re_search_fix_keywords by simp
qed

theorem repair_records_match_keywords_witness:
  "for_each (commits_body sample_tables) [fix_commit, patched_commit, plain_commit] ([], []) =
     Inr ([JObj [(str ''task'', JStr (str ''code_repair'')), (str ''sha'', JStr (str ''a1'')),
                 (str ''message'', JStr (str ''Fixes the scaler'')), (str ''author'', JStr (str ''Ada''))]],
          [JObj [(str ''task'', JStr (str ''commit_gen'')), (str ''sha'', JStr (str ''a1'')),
                 (str ''message'', JStr (str ''Fixes the scaler'')), (str ''author'', JStr (str ''Ada''))],
           JObj [(str ''task'', JStr (str ''commit_gen'')), (str ''sha'', JStr (str ''a4'')),
                 (str ''message'', JStr (str ''patched the build'')), (str ''author'', JStr (str ''Ada''))],
           JObj [(str ''task'', JStr (str ''commit_gen'')), (str ''sha'', JStr (str ''a2'')),
                 (str ''message'', JStr (str ''Add prefix option'')), (str ''author'', JStr (str ''Bob''))]]) \<and>
   \<not> is_merge fix_commit \<and> \<not> is_merge patched_commit \<and> \<not> is_merge plain_commit \<and>
   map Some [JObj [(str ''task'', JStr (str ''code_repair'')), (str ''sha'', JStr (str ''a1'')),
                 (str ''message'', JStr (str ''Fixes the scaler'')), (str ''author'', JStr (str ''Ada''))]] =
     map (commit_record ''code_repair'')
       (filter (keyword_commit sample_tables code_keywords) [fix_commit, patched_commit, plain_commit]) \<and>
   re_search sample_tables fix_keywords (str ''Fixes the scaler'') =
     matches_keyword sample_tables code_keywords (str ''Fixes the scaler'') \<and>
   re_search sample_tables fix_keywords (str ''Fixes the scaler'') \<and>
   \<not> re_search sample_tables fix_keywords (str ''Add prefix option'') \<and>
   \<not> re_search sample_tables fix_keywords accented_prefix_message \<and>
   \<not> re_search sample_tables fix_keywords ideograph_prefix_message \<and>
   re_search sample_tables fix_keywords long_s_message \<and>
   re_search sample_tables fix_keywords dotted_i_message"
proof -
  have s: "re_search sample_tables fix_keywords (str ''Fixes the scaler'')"
    "\<not> re_search sample_tables fix_keywords (str ''Add prefix option'')"
    "\<not> re_search sample_tables fix_keywords accented_prefix_message"
    "\<not> re_search sample_tables fix_keywords ideograph_prefix_message"
    "re_search sample_tables fix_keywords long_s_message"
    "re_search sample_tables fix_keywords dotted_i_message"
    by code_simp+
  have m: "\<not> is_merge fix_commit" "\<not> is_merge patched_commit" "\<not> is_merge plain_commit"
    by (simp_all add: is_merge_def patched_commit_def fix_commit_def plain_commit_def
        bind_err_def str_def)
  then have all: "\<forall>c \<in> set [fix_commit, patched_commit, plain_commit]. \<not> is_merge c"
    by simp
  have run: "for_each (commits_body sample_tables) [fix_commit, patched_commit, plain_commit] ([], []) =
     Inr ([JObj [(str ''task'', JStr (str ''code_repair'')), (str ''sha'', JStr (str ''a1'')),
                 (str ''message'', JStr (str ''Fixes the scaler'')), (str ''author'', JStr (str ''Ada''))]],
          [JObj [(str ''task'', JStr (str ''commit_gen'')), (str ''sha'', JStr (str ''a1'')),
                 (str ''message'', JStr (str ''Fixes the scaler'')), (str ''author'', JStr (str ''Ada''))],
           JObj [(str ''task'', JStr (str ''commit_gen'')), (str ''sha'', JStr (str ''a4'')),
                 (str ''message'', JStr (str ''patched the build'')), (str ''author'', JStr (str ''Ada''))],
           JObj [(str ''task'', JStr (str ''commit_gen'')), (str ''sha'', JStr (str ''a2'')),
                 (str ''message'', JStr (str ''Add prefix option'')), (str ''author'', JStr (str ''Bob''))]])"
    by code_simp
  from repair_records_match_keywords [OF run all, of "str ''Fixes the scaler''"] run m s
  show ?thesis by blast
qed

text \<open>
  C3 as stated fails: the word \<open>patched\<close> is in the specification's keyword set, and a
  non-merge commit whose message has it as a whole word gets no code-repair record.
\<close>

theorem patched_counterexample:
  "matches_keyword sample_tables spec_keywords (str ''patched the build'') \<and>
   \<not> is_merge patched_commit \<and>
   commit_message patched_commit = Inr (JStr (str ''patched the build'')) \<and>
   for_each (commits_body sample_tables) [patched_commit] ([], []) =
     Inr ([], [JObj [(str ''task'', JStr (str ''commit_gen'')), (str ''sha'', JStr (str ''a4'')),
                     (str ''message'', JStr (str ''patched the build'')), (str ''author'', JStr (str ''Ada''))]])"
  by code_simp

text \<open>
  C10, as the code has it. A commit with a \<open>sha\<close>, a message that is a string and a parents
  list of at most one entry, whose nested commit object has no author entry or an author
  entry that is a dict without a name, does not make the loop body fail: the body adds the
  commit-generation record, and the code-repair record when the pattern matches the
  message, with the author \<open>None\<close>.
\<close>

theorem missing_author_gives_none:
  assumes "py_getitem commit (str ''sha'') = Inr sha"
    and "py_getitem commit (str ''commit'') = Inr c"
    and "py_getitem c (str ''message'') = Inr (JStr m)"
    and "py_getitem commit (str ''parents'') = Inr (JArr ps)"
    and "length ps \<le> 1"
    and "py_getitem c (str ''author'') = Inl KeyError \<or>
         (\<exists>a. py_getitem c (str ''author'') = Inr a \<and>
              py_getitem a (str ''name'') = Inl KeyError)"
  shows "commits_body u commit (repair, gen) =
           Inr (if re_search u fix_keywords m
                then repair @ [JObj [(str ''task'', JStr (str ''code_repair'')),
                                     (str ''sha'', sha), (str ''message'', JStr m),
                                     (str ''author'', JNull)]]
                else repair,
                gen @ [JObj [(str ''task'', JStr (str ''commit_gen'')), (str ''sha'', sha),
                             (str ''message'', JStr m), (str ''author'', JNull)]])"
proof -
  obtain kvs where commit: "commit = JObj kvs" using assms(1) by (cases commit) auto
  obtain ckvs where c: "c = JObj ckvs" using assms(3) by (cases c) auto
  have g1: "py_get commit (str ''commit'') (JObj []) = Inr c"
    using assms(2) commit by (auto split: option.splits)
  have author: "bind_err (py_get c (str ''author'') (JObj []))
                  (\<lambda>a. py_get a (str ''name'') JNull) = Inr JNull"
    using assms(6)
  proof
    assume "py_getitem c (str ''author'') = Inl KeyError"
    then show ?thesis using c by (auto simp: bind_err_def split: option.splits)
  next
    assume "\<exists>a. py_getitem c (str ''author'') = Inr a \<and>
                py_getitem a (str ''name'') = Inl KeyError"
    then obtain a where a: "py_getitem c (str ''author'') = Inr a"
        "py_getitem a (str ''name'') = Inl KeyError"
      by blast
    from a(2) obtain akvs where "a = JObj akvs" by (cases a) auto
    then show ?thesis using a c by (auto simp: bind_err_def split: option.splits)
  qed
  show ?thesis
    unfolding commits_body_def
    using assms(1-5) g1 author by (simp add: bind_err_def Let_def)
qed

theorem missing_author_gives_none_witness:
  "py_getitem no_author_commit (str ''sha'') = Inr (JStr (str ''a5'')) \<and>
   py_getitem no_author_commit (str ''commit'') =
     Inr (JObj [(str ''message'', JStr (str ''Correct the docs''))]) \<and>
   py_getitem (JObj [(str ''message'', JStr (str ''Correct the docs''))]) (str ''message'') =
     Inr (JStr (str ''Correct the docs'')) \<and>
   py_getitem no_author_commit (str ''parents'') =
     Inr (JArr [JObj [(str ''sha'', JStr (str ''a4''))]]) \<and>
   py_getitem (JObj [(str ''message'', JStr (str ''Correct the docs''))]) (str ''author'') =
     Inl KeyError \<and>
   re_search sample_tables fix_keywords (str ''Correct the docs'') \<and>
   commits_body sample_tables no_author_commit ([], []) =
     Inr ([JObj [(str ''task'', JStr (str ''code_repair'')), (str ''sha'', JStr (str ''a5'')),
                 (str ''message'', JStr (str ''Correct the docs'')), (str ''author'', JNull)]],
          [JObj [(str ''task'', JStr (str ''commit_gen'')), (str ''sha'', JStr (str ''a5'')),
                 (str ''message'', JStr (str ''Correct the docs'')), (str ''author'', JNull)]])"
proof -
  have 1: "py_getitem no_author_commit (str ''sha'') = Inr (JStr (str ''a5''))"
    and 2: "py_getitem no_author_commit (str ''commit'') =
              Inr (JObj [(str ''message'', JStr (str ''Correct the docs''))])"
    and 4: "py_getitem no_author_commit (str ''parents'') =
              Inr (JArr [JObj [(str ''sha'', JStr (str ''a4''))]])"
    by (simp_all add: no_author_commit_def str_def)
  have 3: "py_getitem (JObj [(str ''message'', JStr (str ''Correct the docs''))])
             (str ''message'') = Inr (JStr (str ''Correct the docs''))"
    and 6: "py_getitem (JObj [(str ''message'', JStr (str ''Correct the docs''))])
             (str ''author'') = Inl KeyError"
    by (simp_all add: str_def)
  have 5: "length [JObj [(str ''sha'', JStr (str ''a4''))]] \<le> 1" by simp
  have s: "re_search sample_tables fix_keywords (str ''Correct the docs'')" by code_simp
  from missing_author_gives_none [OF 1 2 3 4 5 disjI1 [OF 6], where u=sample_tables
      and repair="[]" and gen="[]"] 1 2 3 4 6 s
  show ?thesis by simp
qed

text \<open>
  C10 as stated fails, in two ways. A commit with a \<open>sha\<close>, a message and a parents list of
  two entries, whose author entry has no name, yields no record: the test for a merge comes
  before the author is read. A commit with a \<open>sha\<close>, a message and a parents list of one
  entry, whose author entry is \<^verbatim>\<open>null\<close> and so has no name, makes the loop body raise
  \<^verbatim>\<open>AttributeError\<close>: the default of \<^verbatim>\<open>.get('author', {})\<close> stands in for a missing key
  only, and \<^verbatim>\<open>None\<close> has no method \<^verbatim>\<open>get\<close>.
\<close>

theorem missing_author_counterexample:
  "py_getitem no_author_merge (str ''sha'') = Inr (JStr (str ''a6'')) \<and>
   commit_message no_author_merge = Inr (JStr (str ''Merge branch'')) \<and>
   py_getitem no_author_merge (str ''parents'') =
     Inr (JArr [JObj [(str ''sha'', JStr (str ''a4''))],
                JObj [(str ''sha'', JStr (str ''a5''))]]) \<and>
   bind_err (py_getitem no_author_merge (str ''commit''))
     (\<lambda>c. py_getitem c (str ''author'')) = Inr (JObj []) \<and>
   py_getitem (JObj []) (str ''name'') = Inl KeyError \<and>
   commits_body sample_tables no_author_merge ([], []) = Inr ([], []) \<and>
   py_getitem null_author_commit (str ''sha'') = Inr (JStr (str ''a7'')) \<and>
   commit_message null_author_commit = Inr (JStr (str ''Update the docs'')) \<and>
   py_getitem null_author_commit (str ''parents'') =
     Inr (JArr [JObj [(str ''sha'', JStr (str ''a6''))]]) \<and>
   bind_err (py_getitem null_author_commit (str ''commit''))
     (\<lambda>c. py_getitem c (str ''author'')) = Inr JNull \<and>
   commits_body sample_tables null_author_commit ([], []) = Inl AttributeError"
  by code_simp

end
